theory Spec2Isabelle
  imports Main "HOL-Library.AList"
begin

section \<open>Strings and formatting\<close>

text \<open>
  Go strings are byte sequences; they are modelled as \<open>string\<close> (a list of 8-bit
  characters). Go's \<open>int\<close> carries the status code and the byte count; no arithmetic that
  could overflow is done on either, so they are modelled as \<open>int\<close>.
\<close>

text \<open>
  \<open>strings.ToLower\<close> belongs to the standard library. It is aware of Unicode: it maps
  the letters of every script, and it rewrites bytes that are not valid UTF-8. Its tables
  are not part of this development, so the function is left open: \<open>headerLogField\<close> and
  the loop of \<open>Configure\<close> take it as their first argument, and the state of the process
  carries it (field \<open>strings_ToLower\<close>) for the functions that run in a state. What is
  proved of them holds whatever function it is.

  On a string all of whose bytes are ASCII, \<open>strings.ToLower\<close> moves the bytes \<open>A\<close> ..
  \<open>Z\<close> (65 .. 90) to \<open>a\<close> .. \<open>z\<close> and keeps every other byte. \<open>ascii_lower\<close> is that
  path; the examples, whose strings are ASCII, use it.
\<close>

definition ascii_lower_byte :: "char \<Rightarrow> char" where
  "ascii_lower_byte c =
     (let n = (of_char c :: nat) in if 65 \<le> n \<and> n \<le> 90 then char_of (n + 32) else c)"

definition ascii_lower :: "string \<Rightarrow> string" where
  "ascii_lower s = map ascii_lower_byte s"

text \<open>\<open>strings.Join(v, sep)\<close>.\<close>

fun Join :: "string list \<Rightarrow> string \<Rightarrow> string" where
  "Join [] sep = []"
| "Join [x] sep = x"
| "Join (x # y # ys) sep = x @ sep @ Join (y # ys) sep"

text \<open>The verb \<open>%d\<close> of \<open>fmt.Sprintf\<close>: the decimal digits, with a minus sign in front
  of a negative number.\<close>

definition digit_char :: "nat \<Rightarrow> char" where
  "digit_char d = char_of (48 + d)"

function show_nat :: "nat \<Rightarrow> string" where
  "show_nat n = (if n < 10 then [digit_char n] else show_nat (n div 10) @ [digit_char (n mod 10)])"
  by pat_completeness auto
termination
  by (relation "measure id") auto

declare show_nat.simps [simp del]

definition show_int :: "int \<Rightarrow> string" where
  "show_int i = (if i < 0 then CHR ''-'' # show_nat (nat (- i)) else show_nat (nat i))"

text \<open>
  The values a handler can panic with, as far as their formatting goes: a string, an
  integer, an error (with its message), and the sentinel \<open>http.ErrAbortHandler\<close>.
  \<open>fmt.Sprintf("%+v", v)\<close> prints a string as it is, an integer in decimal and an
  error by its message.
\<close>

datatype go_value = GoString string | GoInt int | GoError string | ErrAbortHandler

fun sprintf_v :: "go_value \<Rightarrow> string" where
  "sprintf_v (GoString s) = s"
| "sprintf_v (GoInt i) = show_int i"
| "sprintf_v (GoError m) = m"
| "sprintf_v ErrAbortHandler = ''net/http: abort Handler''"

section \<open>Severity classifier\<close>

datatype Level = LevelDebug | LevelInfo | LevelWarn | LevelError

text \<open>\<open>statusLevel\<close>: the \<open>switch\<close> takes the first case that holds.\<close>

definition statusLevel :: "int \<Rightarrow> Level" where
  "statusLevel status =
     (if status \<le> 0 then LevelWarn
      else if status < 400 then LevelInfo
      else if status \<ge> 400 \<and> status < 500 then LevelWarn
      else if status \<ge> 500 then LevelError
      else LevelInfo)"

definition statusLabel :: "int \<Rightarrow> string" where
  "statusLabel status =
     (if status \<ge> 100 \<and> status < 300 then ''OK''
      else if status \<ge> 300 \<and> status < 400 then ''Redirect''
      else if status \<ge> 400 \<and> status < 500 then ''Client Error''
      else if status \<ge> 500 then ''Server Error''
      else ''Unknown'')"

section \<open>Header redactor\<close>

text \<open>
  \<open>http.Header\<close> is a Go map from names to lists of values. A \<open>range\<close> over it visits
  the names in an order the runtime chooses; the association list gives that order. Two
  names of the map may lower-case to the same key, and then the later visit wins.
  The result map \<open>headerField\<close> is an association list read with \<open>map_of\<close>; an
  assignment \<open>headerField[k] = x\<close> is \<open>AList.update k x\<close>.
\<close>

type_synonym Header = "(string \<times> string list) list"

text \<open>The inner loop over \<open>DefaultOptions.SkipHeaders\<close>, with its \<open>break\<close>.\<close>

fun skip_loop :: "string list \<Rightarrow> string \<Rightarrow> (string \<times> string) list \<Rightarrow> (string \<times> string) list" where
  "skip_loop [] k headerField = headerField"
| "skip_loop (skip # rest) k headerField =
     (if k = skip then AList.update k ''***'' headerField else skip_loop rest k headerField)"

fun headerLogField_loop ::
  "(string \<Rightarrow> string) \<Rightarrow> string list \<Rightarrow> Header \<Rightarrow> (string \<times> string) list \<Rightarrow> (string \<times> string) list" where
  "headerLogField_loop lower skips [] headerField = headerField"
| "headerLogField_loop lower skips ((k0, v) # rest) headerField =
     (let k = lower k0 in
      if length v = 0 then headerLogField_loop lower skips rest headerField
      else
        let hf1 = (if length v = 1 then AList.update k (v ! 0) headerField
                   else AList.update k (''['' @ Join v ''], ['' @ '']'') headerField);
            hf2 = (if k = ''authorization'' \<or> k = ''cookie'' \<or> k = ''set-cookie''
                   then AList.update k ''***'' hf1 else hf1);
            hf3 = skip_loop skips k hf2
        in headerLogField_loop lower skips rest hf3)"

text \<open>\<open>headerLogField\<close>; its arguments are the function \<open>strings.ToLower\<close> and the
  content of \<open>DefaultOptions.SkipHeaders\<close> at the time of the call.\<close>

definition headerLogField :: "(string \<Rightarrow> string) \<Rightarrow> string list \<Rightarrow> Header \<Rightarrow> (string \<times> string) list" where
  "headerLogField lower skips header = headerLogField_loop lower skips header []"

text \<open>What the redactor stores for a name \<open>k\<close> (already lower-cased) with the non-empty
  value list \<open>v\<close>, written after the words of the specification.\<close>

definition masked :: "string list \<Rightarrow> string \<Rightarrow> bool" where
  "masked skips k \<longleftrightarrow>
     k = ''authorization'' \<or> k = ''cookie'' \<or> k = ''set-cookie'' \<or> k \<in> set skips"

definition rendered :: "string list \<Rightarrow> string \<Rightarrow> string list \<Rightarrow> string" where
  "rendered skips k v =
     (if masked skips k then ''***''
      else if length v = 1 then hd v
      else ''['' @ Join v ''], ['' @ '']'')"

section \<open>Loggers and log records\<close>

text \<open>
  The attribute values the middleware attaches to a logger. \<open>AMillis ns\<close> stands for the
  float \<open>float64(ns) / 1000000.0\<close> of the elapsed time and keeps the nanosecond count
  it is computed from. \<open>AHeader\<close> is a \<open>map[string]string\<close> and \<open>AFields\<close> a
  \<open>map[string]interface{}\<close>, both as association lists read with \<open>map_of\<close>.
\<close>

datatype Value =
    AString string
  | AInt int
  | AMillis int
  | AHeader "(string \<times> string) list"
  | AFields "(string \<times> Value) list"

text \<open>
  A \<open>*slog.Logger\<close> is an immutable handle: the minimum level of the handler behind it
  and the attributes attached so far. \<open>With\<close> returns a new handle with one more
  attribute.
\<close>

record Logger =
  handler_level :: Level
  attrs :: "(string \<times> Value) list"

definition With :: "Logger \<Rightarrow> string \<Rightarrow> Value \<Rightarrow> Logger" where
  "With l k v = l\<lparr>attrs := attrs l @ [(k, v)]\<rparr>"

record log_record =
  rec_level :: Level
  rec_msg :: string
  rec_attrs :: "(string \<times> Value) list"

record RequestLoggerEntry =
  Logger :: Logger
  msg :: string

section \<open>Options, requests and the state of the process\<close>

text \<open>
  A Go slice of strings is a view of a backing array: the array it points into, the index
  of its first element and its length. Two slice values with the same fields alias each
  other. The nil slice has length \<open>0\<close>.
\<close>

record slice =
  base :: nat
  start :: nat
  len :: nat

record Options =
  LogLevel :: string
  LevelFieldName :: string
  Concise :: bool
  Tags :: "(string \<times> string) list"
  SkipHeaders :: slice
  TimeFieldFormat :: string
  TimeFieldName :: string

definition RFC3339Nano :: string where
  "RFC3339Nano = ''2006-01-02T15:04:05.999999999Z07:00''"

text \<open>
  What the request context holds under \<open>middleware.LogEntryCtxKey\<close>: nothing, a
  \<open>*RequestLoggerEntry\<close> (the address of an entry, or the nil pointer of that type), or a
  value of another type.
\<close>

datatype ctx_value = CtxNone | CtxEntry "nat option" | CtxOther

record Context =
  RequestIDKey :: string
  LogEntryCtxKey :: ctx_value

record Request =
  Method :: string
  Path :: string
  Host :: string
  RequestURI :: string
  RemoteAddr :: string
  Proto :: string
  TLS :: bool
  ReqHeader :: Header
  Ctx :: Context

text \<open>
  A response writer is the connection's own writer or a wrapper around another writer.
  The wrapper (\<open>middleware.WrapResponseWriter\<close> of the router library) records the first
  status code and the number of bytes written, and copies what is written into its tee
  buffer.
\<close>

datatype ResponseWriter = Conn | Wrapped nat ResponseWriter

record WrapWriter =
  code :: int
  wroteHeader :: bool
  bytes :: int
  tee :: "(nat \<times> string) option"

datatype call = CallWrite nat | CallPanic nat

datatype dump = PrettyStack go_value string

text \<open>
  The state a request runs in. \<open>entries\<close> and \<open>wrappers\<close> are the heap objects, by
  address, with the next free address beside each; \<open>arrays\<close> holds the backing arrays of
  the string slices. \<open>logged\<close> is the sequence of records handed to a logger at some
  level (the handler behind the logger then applies its own minimum level); \<open>stderr\<close>
  is the diagnostic stream. \<open>calls\<close> is a history variable: it records, in order, every
  call of \<open>Write\<close> and of \<open>Panic\<close> with the address of the entry, and nothing reads it.
  \<open>debug_stack\<close> is the text that \<open>debug.Stack()\<close> gives and \<open>strings_ToLower\<close> the
  function \<open>strings.ToLower\<close>; no function of the model writes either.
\<close>

record world =
  DefaultOptions :: Options
  arrays :: "nat \<Rightarrow> nat \<Rightarrow> string"
  slog_default :: Logger
  entries :: "nat \<Rightarrow> RequestLoggerEntry"
  next_entry :: nat
  wrappers :: "nat \<Rightarrow> WrapWriter"
  next_wrapper :: nat
  resp_status :: int
  resp_header :: Header
  resp_body :: string
  logged :: "log_record list"
  stderr :: "dump list"
  calls :: "call list"
  clock :: int
  debug_stack :: string
  strings_ToLower :: "string \<Rightarrow> string"

datatype outcome = Returned | Panicked go_value

text \<open>An \<open>http.Handler\<close>: it either returns or panics, and leaves a new state.\<close>

type_synonym handler = "ResponseWriter \<Rightarrow> Request \<Rightarrow> world \<Rightarrow> outcome \<times> world"

definition slice_elems :: "world \<Rightarrow> slice \<Rightarrow> string list" where
  "slice_elems s sl = map (\<lambda>i. arrays s (base sl) (start sl + i)) [0 ..< len sl]"

definition log :: "Logger \<Rightarrow> Level \<Rightarrow> string \<Rightarrow> world \<Rightarrow> world" where
  "log l lv m s =
     s\<lparr>logged := logged s @ [\<lparr>rec_level = lv, rec_msg = m, rec_attrs = attrs l\<rparr>]\<rparr>"

section \<open>Configure\<close>

text \<open>
  The loop \<open>for i, header := range opts.SkipHeaders { opts.SkipHeaders[i] =
  strings.ToLower(header) }\<close> over the indices of the slice: each step reads the cell and
  writes it back lower-cased, in the backing array itself.
\<close>

fun lower_loop :: "(string \<Rightarrow> string) \<Rightarrow> slice \<Rightarrow> nat list \<Rightarrow> (nat \<Rightarrow> nat \<Rightarrow> string) \<Rightarrow> (nat \<Rightarrow> nat \<Rightarrow> string)" where
  "lower_loop lower sl [] arrs = arrs"
| "lower_loop lower sl (i # is) arrs =
     (let header = arrs (base sl) (start sl + i)
      in lower_loop lower sl is (arrs(base sl := (arrs (base sl))(start sl + i := lower header))))"

definition Configure :: "Options \<Rightarrow> world \<Rightarrow> world" where
  "Configure opts0 s =
     (let opts1 = (if LogLevel opts0 = '''' then opts0\<lparr>LogLevel := ''info''\<rparr> else opts0);
          opts2 = (if LevelFieldName opts1 = '''' then opts1\<lparr>LevelFieldName := ''level''\<rparr> else opts1);
          opts3 = (if TimeFieldFormat opts2 = '''' then opts2\<lparr>TimeFieldFormat := RFC3339Nano\<rparr>
                   else opts2);
          opts = (if TimeFieldName opts3 = '''' then opts3\<lparr>TimeFieldName := ''timestamp''\<rparr>
                  else opts3);
          arrs = lower_loop (strings_ToLower s) (SkipHeaders opts) [0 ..< len (SkipHeaders opts)] (arrays s);
          name = strings_ToLower s (LogLevel opts);
          logLevel = (if name = ''debug'' then LevelDebug
                      else if name = ''info'' then LevelInfo
                      else if name = ''warn'' then LevelWarn
                      else if name = ''error'' then LevelError
                      else LevelInfo)
      in s\<lparr>arrays := arrs, DefaultOptions := opts,
           slog_default := \<lparr>handler_level = logLevel, attrs = []\<rparr>\<rparr>)"

section \<open>The request logger entry\<close>

definition GetReqID :: "Context \<Rightarrow> string" where
  "GetReqID ctx = RequestIDKey ctx"

definition requestLogFields :: "world \<Rightarrow> Request \<Rightarrow> bool \<Rightarrow> (string \<times> Value) list" where
  "requestLogFields s r concise =
     (let scheme = (if TLS r then ''https'' else ''http'');
          requestURL = scheme @ ''://'' @ Host r @ RequestURI r;
          f0 = [(''requestURL'', AString requestURL),
                (''requestMethod'', AString (Method r)),
                (''requestPath'', AString (Path r)),
                (''remoteIP'', AString (RemoteAddr r)),
                (''proto'', AString (Proto r))];
          reqID = GetReqID (Ctx r);
          f1 = (if reqID \<noteq> '''' then AList.update ''requestID'' (AString reqID) f0 else f0)
      in if concise then f1
         else
           let f2 = AList.update ''scheme'' (AString scheme) f1
           in if length (ReqHeader r) > 0
              then AList.update ''header''
                     (AHeader (headerLogField (strings_ToLower s) (slice_elems s (SkipHeaders (DefaultOptions s)))
                        (ReqHeader r))) f2
              else f2)"

text \<open>\<open>NewLogEntry\<close> allocates the entry and returns its address.\<close>

definition NewLogEntry :: "Logger \<Rightarrow> Request \<Rightarrow> world \<Rightarrow> nat \<times> world" where
  "NewLogEntry l r s =
     (let entry = next_entry s;
          m = ''Request: '' @ Method r @ '' '' @ Path r;
          lg = With l ''httpRequest'' (AFields (requestLogFields s r True));
          s1 = s\<lparr>entries := (entries s)(entry := \<lparr>Logger = lg, msg = ''''\<rparr>),
                 next_entry := Suc entry\<rparr>;
          s2 = (if \<not> Concise (DefaultOptions s1)
                then log (With lg ''httpRequest''
                            (AFields (requestLogFields s1 r (Concise (DefaultOptions s1)))))
                       LevelInfo m s1
                else s1)
      in (entry, s2))"

text \<open>The argument \<open>extra\<close> of \<open>Write\<close> is an \<open>interface{}\<close>: a byte slice or something
  else; the assertion \<open>extra.([]byte)\<close> gives the empty slice for anything else.\<close>

datatype extra = ExtraBytes string | ExtraOther

definition responseLog :: "world \<Rightarrow> int \<Rightarrow> int \<Rightarrow> Header \<Rightarrow> int \<Rightarrow> extra \<Rightarrow> (string \<times> Value) list" where
  "responseLog s status nbytes header elapsed ex =
     (let r0 = [(''status'', AInt status), (''bytes'', AInt nbytes), (''elapsed'', AMillis elapsed)]
      in if \<not> Concise (DefaultOptions s)
         then
           let r1 = (if status \<ge> 400
                     then AList.update ''body''
                            (AString (case ex of ExtraBytes body \<Rightarrow> body | ExtraOther \<Rightarrow> '''')) r0
                     else r0)
           in if length header > 0
              then AList.update ''header''
                     (AHeader (headerLogField (strings_ToLower s) (slice_elems s (SkipHeaders (DefaultOptions s)))
                        header)) r1
              else r1
         else r0)"

definition response_msg :: "RequestLoggerEntry \<Rightarrow> int \<Rightarrow> string" where
  "response_msg l status =
     (let m = ''Response: '' @ show_int status @ '' '' @ statusLabel status
      in if msg l \<noteq> '''' then m @ '' - '' @ msg l else m)"

text \<open>\<open>Write\<close> on the entry at address \<open>a\<close>. The \<open>switch\<close> has an empty case for
  \<open>slog.LevelInfo\<close>; a Go case does not fall through, so nothing is logged there.\<close>

definition Write :: "nat \<Rightarrow> int \<Rightarrow> int \<Rightarrow> Header \<Rightarrow> int \<Rightarrow> extra \<Rightarrow> world \<Rightarrow> world" where
  "Write a status nbytes header elapsed ex s =
     (let l = entries s a;
          m = response_msg l status;
          rl = responseLog s status nbytes header elapsed ex;
          s1 = s\<lparr>calls := calls s @ [CallWrite a]\<rparr>
      in case statusLevel status of
           LevelError \<Rightarrow> log (With (Logger l) ''httpResponse'' (AFields rl)) LevelError m s1
         | LevelWarn \<Rightarrow> log (With (Logger l) ''httpResponse'' (AFields rl)) LevelWarn m s1
         | LevelInfo \<Rightarrow> s1
         | _ \<Rightarrow> log (With (Logger l) ''httpResponse'' (AFields rl)) LevelInfo m s1)"

text \<open>\<open>middleware.PrintPrettyStack\<close> writes the formatted stack of the running
  goroutine, with the panic value, to standard error.\<close>

definition PrintPrettyStack :: "go_value \<Rightarrow> world \<Rightarrow> world" where
  "PrintPrettyStack v s = s\<lparr>stderr := stderr s @ [PrettyStack v (debug_stack s)]\<rparr>"

definition Panic :: "nat \<Rightarrow> go_value \<Rightarrow> string \<Rightarrow> world \<Rightarrow> world" where
  "Panic a v stack s =
     (let l = entries s a;
          stacktrace = stack;
          l1 = l\<lparr>Logger := With (With (Logger l) ''stacktrace'' (AString stacktrace))
                              ''panic'' (AString (sprintf_v v))\<rparr>;
          l2 = l1\<lparr>msg := sprintf_v v\<rparr>;
          s1 = s\<lparr>entries := (entries s)(a := l2), calls := calls s @ [CallPanic a]\<rparr>
      in PrintPrettyStack v s1)"

text \<open>\<open>LogEntry\<close>: the type assertion fails when the context holds nothing or a value
  of another type; a nil pointer of the right type is caught by \<open>entry == nil\<close>.\<close>

definition LogEntry :: "Context \<Rightarrow> world \<Rightarrow> Logger" where
  "LogEntry ctx s =
     (case LogEntryCtxKey ctx of
        CtxEntry (Some a) \<Rightarrow> Logger (entries s a)
      | CtxEntry None \<Rightarrow> slog_default s
      | _ \<Rightarrow> slog_default s)"

section \<open>The response wrapper and the recovery middleware\<close>

text \<open>
  These belong to the router library and to the standard library, not to this repository;
  they are modelled as far as \<open>Handler\<close> uses them. The connection keeps the first status
  it is given (\<open>200\<close> at the first write without one) and the bytes written.
\<close>

fun WriteHeader :: "ResponseWriter \<Rightarrow> int \<Rightarrow> world \<Rightarrow> world" where
  "WriteHeader Conn c s = (if resp_status s = 0 then s\<lparr>resp_status := c\<rparr> else s)"
| "WriteHeader (Wrapped a inner) c s =
     (if \<not> wroteHeader (wrappers s a)
      then WriteHeader inner c
             (s\<lparr>wrappers := (wrappers s)(a := (wrappers s a)\<lparr>code := c, wroteHeader := True\<rparr>)\<rparr>)
      else s)"

text \<open>
  Modelled from the spec: \<open>newLimitBuffer\<close>, the bounded side buffer, is not among the
  sources. The specification says that a write is mirrored up to the remaining capacity
  and that writes to the real stream go on once it is full.
\<close>

definition newLimitBuffer :: "nat \<Rightarrow> nat \<times> string" where
  "newLimitBuffer limit = (limit, '''')"

definition limit_write :: "nat \<times> string \<Rightarrow> string \<Rightarrow> nat \<times> string" where
  "limit_write b p = (fst b, snd b @ take (fst b - length (snd b)) p)"

fun WriteBody :: "ResponseWriter \<Rightarrow> string \<Rightarrow> world \<Rightarrow> world" where
  "WriteBody Conn p s =
     (let s1 = WriteHeader Conn 200 s in s1\<lparr>resp_body := resp_body s1 @ p\<rparr>)"
| "WriteBody (Wrapped a inner) p s =
     (let s1 = (if \<not> wroteHeader (wrappers s a) then WriteHeader (Wrapped a inner) 200 s else s);
          s2 = WriteBody inner p s1;
          ww = wrappers s2 a
      in s2\<lparr>wrappers := (wrappers s2)
             (a := ww\<lparr>tee := map_option (\<lambda>b. limit_write b p) (tee ww),
                      bytes := bytes ww + int (length p)\<rparr>)\<rparr>)"

definition NewWrapResponseWriter :: "ResponseWriter \<Rightarrow> world \<Rightarrow> ResponseWriter \<times> world" where
  "NewWrapResponseWriter w s =
     (let a = next_wrapper s
      in (Wrapped a w,
          s\<lparr>wrappers := (wrappers s)(a := \<lparr>code = 0, wroteHeader = False, bytes = 0, tee = None\<rparr>),
            next_wrapper := Suc a\<rparr>))"

fun Tee :: "ResponseWriter \<Rightarrow> nat \<times> string \<Rightarrow> world \<Rightarrow> world" where
  "Tee Conn b s = s"
| "Tee (Wrapped a inner) b s = s\<lparr>wrappers := (wrappers s)(a := (wrappers s a)\<lparr>tee := Some b\<rparr>)\<rparr>"

fun Status :: "ResponseWriter \<Rightarrow> world \<Rightarrow> int" where
  "Status Conn s = resp_status s"
| "Status (Wrapped a inner) s = code (wrappers s a)"

fun BytesWritten :: "ResponseWriter \<Rightarrow> world \<Rightarrow> int" where
  "BytesWritten Conn s = int (length (resp_body s))"
| "BytesWritten (Wrapped a inner) s = bytes (wrappers s a)"

text \<open>\<open>ioutil.ReadAll(buf)\<close> on the tee buffer of the wrapper: the bytes it holds, which
  the read takes out of the buffer.\<close>

fun ReadAll :: "ResponseWriter \<Rightarrow> world \<Rightarrow> string \<times> world" where
  "ReadAll Conn s = ('''', s)"
| "ReadAll (Wrapped a inner) s =
     (case tee (wrappers s a) of
        None \<Rightarrow> ('''', s)
      | Some b \<Rightarrow> (snd b, s\<lparr>wrappers := (wrappers s)(a := (wrappers s a)\<lparr>tee := Some (fst b, '''')\<rparr>)\<rparr>))"

definition header_get :: "Header \<Rightarrow> string \<Rightarrow> string" where
  "header_get h k = (case map_of h k of Some (x # _) \<Rightarrow> x | _ \<Rightarrow> '''')"

text \<open>
  \<open>middleware.Recoverer\<close>, the recovery boundary that \<open>RequestLogger\<close> chains after
  \<open>Handler\<close>. When the handler below it panics with anything but
  \<open>http.ErrAbortHandler\<close>, it calls the hook \<open>Panic\<close> of the log entry of the request
  with the panic value and the stack (or prints the stack itself when the context has no
  entry), answers \<open>500\<close> unless the connection is being upgraded, and returns normally.
  A nil \<open>*RequestLoggerEntry\<close> in the context makes the hook dereference nil, which is a
  new panic.
\<close>

definition Recoverer :: "handler \<Rightarrow> handler" where
  "Recoverer next w r s =
     (case next w r s of
        (Returned, s1) \<Rightarrow> (Returned, s1)
      | (Panicked rvr, s1) \<Rightarrow>
          if rvr = ErrAbortHandler then (Panicked rvr, s1)
          else
            (case LogEntryCtxKey (Ctx r) of
               CtxEntry None \<Rightarrow>
                 (Panicked (GoError ''runtime error: invalid memory address or nil pointer dereference''), s1)
             | logEntry \<Rightarrow>
                 let s2 = (case logEntry of
                             CtxEntry (Some a) \<Rightarrow> Panic a rvr (debug_stack s1) s1
                           | _ \<Rightarrow> PrintPrettyStack rvr s1)
                 in (Returned,
                     if header_get (ReqHeader r) ''Connection'' \<noteq> ''Upgrade''
                     then WriteHeader w 500 s2 else s2)))"

section \<open>The middleware\<close>

definition WithLogEntry :: "Request \<Rightarrow> nat \<Rightarrow> Request" where
  "WithLogEntry r entry = r\<lparr>Ctx := (Ctx r)\<lparr>LogEntryCtxKey := CtxEntry (Some entry)\<rparr>\<rparr>"

text \<open>The set of keys of the map \<open>skipPaths\<close> that \<open>Handler\<close> builds from its variadic
  argument: the paths of the first list, when there is one.\<close>

definition skipPaths :: "string list list \<Rightarrow> string set" where
  "skipPaths optSkipPaths =
     (if length optSkipPaths > 0 then set (optSkipPaths ! 0) else {})"

text \<open>The deferred function of \<open>Handler\<close>; \<open>t1\<close> is the clock at registration.\<close>

definition Handler_deferred :: "nat \<Rightarrow> ResponseWriter \<Rightarrow> int \<Rightarrow> world \<Rightarrow> world" where
  "Handler_deferred entry ww t1 s =
     (let (respBody, s1) = (if Status ww s \<ge> 400 then ReadAll ww s else ('''', s))
      in Write entry (Status ww s1) (BytesWritten ww s1) (resp_header s1) (clock s1 - t1)
           (ExtraBytes respBody) s1)"

text \<open>
  \<open>Handler\<close>. The deferred function is registered before \<open>next.ServeHTTP\<close> is called, so
  it runs when \<open>next\<close> returns and when it panics; a panic then goes on to the caller.
\<close>

definition Handler :: "Logger \<Rightarrow> string list list \<Rightarrow> handler \<Rightarrow> handler" where
  "Handler logger optSkipPaths next w r s =
     (if skipPaths optSkipPaths \<noteq> {} \<and> Path r \<in> skipPaths optSkipPaths
      then next w r s
      else
        let (entry, s1) = NewLogEntry logger r s;
            (ww, s2) = NewWrapResponseWriter w s1;
            s3 = Tee ww (newLimitBuffer 512) s2;
            t1 = clock s3;
            (out, s4) = next ww (WithLogEntry r entry) s3
        in (out, Handler_deferred entry ww t1 s4))"

text \<open>The state in which \<open>Handler\<close> calls \<open>next\<close> on a request it does not skip, with
  the entry and the wrapper it has made.\<close>

definition Handler_enter :: "Logger \<Rightarrow> ResponseWriter \<Rightarrow> Request \<Rightarrow> world \<Rightarrow> nat \<times> ResponseWriter \<times> world" where
  "Handler_enter logger w r s =
     (let (entry, s1) = NewLogEntry logger r s;
          (ww, s2) = NewWrapResponseWriter w s1
      in (entry, ww, Tee ww (newLimitBuffer 512) s2))"

text \<open>\<open>RequestLogger\<close> chains the request-id middleware of the router library (a
  parameter here), \<open>Handler\<close> and \<open>Recoverer\<close>, in this order, around the handler.\<close>

definition RequestLogger :: "(handler \<Rightarrow> handler) \<Rightarrow> Logger \<Rightarrow> string list list \<Rightarrow> handler \<Rightarrow> handler" where
  "RequestLogger RequestID logger optSkipPaths next =
     RequestID (Handler logger optSkipPaths (Recoverer next))"

section \<open>The initial state and example requests\<close>

text \<open>The variable \<open>DefaultOptions\<close> as the package initialises it; \<open>nil\<close> is the empty
  slice and the empty map.\<close>

definition nil_slice :: slice where
  "nil_slice = \<lparr>base = 0, start = 0, len = 0\<rparr>"

definition initial_options :: Options where
  "initial_options =
     \<lparr>LogLevel = ''info'', LevelFieldName = ''level'', Concise = False, Tags = [],
      SkipHeaders = nil_slice, TimeFieldFormat = RFC3339Nano, TimeFieldName = ''timestamp''\<rparr>"

definition initial_logger :: Logger where
  "initial_logger = \<lparr>handler_level = LevelInfo, attrs = []\<rparr>"

text \<open>A state before any request: nothing allocated, nothing written, nothing logged.
  Its lower-casing function is the ASCII path of \<open>strings.ToLower\<close>; the requests and
  options of the examples that run in it hold ASCII strings only.\<close>

definition initial_world :: world where
  "initial_world =
     \<lparr>DefaultOptions = initial_options,
      arrays = (\<lambda>_ _. ''''),
      slog_default = initial_logger,
      entries = (\<lambda>_. \<lparr>Logger = initial_logger, msg = ''''\<rparr>),
      next_entry = 0,
      wrappers = (\<lambda>_. \<lparr>code = 0, wroteHeader = False, bytes = 0, tee = None\<rparr>),
      next_wrapper = 0,
      resp_status = 0,
      resp_header = [],
      resp_body = '''',
      logged = [],
      stderr = [],
      calls = [],
      clock = 0,
      debug_stack = ''goroutine 1 [running]'',
      strings_ToLower = ascii_lower\<rparr>"

definition get_request :: "string \<Rightarrow> Request" where
  "get_request p =
     \<lparr>Method = ''GET'', Path = p, Host = ''localhost:5555'', RequestURI = p,
      RemoteAddr = ''127.0.0.1:4000'', Proto = ''HTTP/1.1'', TLS = False, ReqHeader = [],
      Ctx = \<lparr>RequestIDKey = '''', LogEntryCtxKey = CtxNone\<rparr>\<rparr>"

text \<open>The handlers of the example program for \<open>/panic\<close> and \<open>/warn\<close>, and one that
  writes a body and then panics.\<close>

definition panic_handler :: handler where
  "panic_handler w r s = (Panicked (GoString ''oh no''), s)"

definition warn_handler :: handler where
  "warn_handler w r s =
     (Returned,
      WriteBody w ''warn here''
        (WriteHeader w 400 (log (LogEntry (Ctx r) s) LevelWarn ''warn here'' s)))"

definition late_panic_handler :: handler where
  "late_panic_handler w r s = (Panicked (GoString ''oh no''), WriteBody w ''hello'' s)"

text \<open>A caller of \<open>Configure\<close>: its slice is the cells \<open>1\<close> and \<open>2\<close> of the backing
  array \<open>7\<close>, which has four cells.\<close>

definition caller_options :: Options where
  "caller_options =
     \<lparr>LogLevel = ''WARN'', LevelFieldName = '''', Concise = True, Tags = [(''env'', ''dev'')],
      SkipHeaders = \<lparr>base = 7, start = 1, len = 2\<rparr>, TimeFieldFormat = '''',
      TimeFieldName = ''ts''\<rparr>"

definition caller_world :: world where
  "caller_world =
     initial_world\<lparr>arrays := (\<lambda>a i. if a = 7 \<and> i < 4
        then [''Zero'', ''X-Api-Key'', ''X-Token'', ''Three''] ! i else '''')\<rparr>"

definition concise_world :: world where
  "concise_world = initial_world\<lparr>DefaultOptions := initial_options\<lparr>Concise := True\<rparr>\<rparr>"

text \<open>
  A header name outside ASCII: \<open>Coo\<close>, the Kelvin sign (U+212A, the bytes E2 84 AA) and
  \<open>ie\<close>. \<open>strings.ToLower\<close> maps the Kelvin sign to \<open>k\<close>; \<open>kelvin_lower\<close> does so on
  this name and follows the ASCII path on every other string.
\<close>

definition kelvin_name :: string where
  "kelvin_name = ''Coo'' @ [CHR 0xE2, CHR 0x84, CHR 0xAA] @ ''ie''"

definition kelvin_lower :: "string \<Rightarrow> string" where
  "kelvin_lower s = (if s = kelvin_name then ''cookie'' else ascii_lower s)"

text \<open>The caller's array with that name in the first cell of the slice, in a process
  whose lower-casing function is \<open>kelvin_lower\<close>.\<close>

definition kelvin_world :: world where
  "kelvin_world =
     initial_world\<lparr>arrays := (\<lambda>a i. if a = 7 \<and> i < 4
        then [''Zero'', kelvin_name, ''X-Token'', ''Three''] ! i else ''''),
       strings_ToLower := kelvin_lower\<rparr>"

text \<open>A handler that returns at once and touches nothing.\<close>

definition idle_handler :: handler where
  "idle_handler w r s = (Returned, s)"

section \<open>Properties of the classifier\<close>

text \<open>
  Claim C3. The classifier is total and follows the boundary table: a status \<open>s \<le> 0\<close> is
  warn with label Unknown; \<open>0 < s < 400\<close> is info, labelled OK for \<open>100 \<le> s < 300\<close> and
  Redirect for \<open>300 \<le> s < 400\<close>; \<open>400 \<le> s < 500\<close> is warn with Client Error;
  \<open>s \<ge> 500\<close> is error with Server Error; every status outside the label bands, that is
  every \<open>s < 100\<close>, is labelled Unknown.
\<close>

theorem classify_table:
  "(s \<le> 0 \<longrightarrow> statusLevel s = LevelWarn \<and> statusLabel s = ''Unknown'') \<and>
   (0 < s \<and> s < 400 \<longrightarrow> statusLevel s = LevelInfo) \<and>
   (100 \<le> s \<and> s < 300 \<longrightarrow> statusLabel s = ''OK'') \<and>
   (300 \<le> s \<and> s < 400 \<longrightarrow> statusLabel s = ''Redirect'') \<and>
   (400 \<le> s \<and> s < 500 \<longrightarrow> statusLevel s = LevelWarn \<and> statusLabel s = ''Client Error'') \<and>
   (500 \<le> s \<longrightarrow> statusLevel s = LevelError \<and> statusLabel s = ''Server Error'') \<and>
   (s < 100 \<longrightarrow> statusLabel s = ''Unknown'')"
  by (simp add: statusLevel_def statusLabel_def)

text \<open>The table at one status of every band.\<close>

theorem classify_table_witness:
  "statusLevel 0 = LevelWarn \<and> statusLabel 0 = ''Unknown'' \<and>
   statusLevel 99 = LevelInfo \<and> statusLabel 99 = ''Unknown'' \<and>
   statusLevel 200 = LevelInfo \<and> statusLabel 200 = ''OK'' \<and>
   statusLevel 302 = LevelInfo \<and> statusLabel 302 = ''Redirect'' \<and>
   statusLevel 404 = LevelWarn \<and> statusLabel 404 = ''Client Error'' \<and>
   statusLevel 503 = LevelError \<and> statusLabel 503 = ''Server Error''"
  using classify_table [of 0] classify_table [of 99] classify_table [of 200]
    classify_table [of 302] classify_table [of 404] classify_table [of 503]
  by simp

section \<open>Properties of the header redactor\<close>

text \<open>Rules that evaluate the string functions on literals.\<close>

lemmas eval_simps = ascii_lower_def ascii_lower_byte_def char_of_def bit_Suc_0_iff show_int_def
  show_nat.simps digit_char_def

lemma skip_loop_eq: "skip_loop skips k hf = (if k \<in> set skips then AList.update k ''***'' hf else hf)"
  by (induction skips) auto



lemma find_snoc:
  "List.find P (xs @ [x]) =
     (case List.find P xs of None \<Rightarrow> (if P x then Some x else None) | Some y \<Rightarrow> Some y)"
  by (induction xs) auto

lemma loop_lookup_acc:
  "map_of (headerLogField_loop lower skips header hf) k' =
     (case List.find (\<lambda>(k, v). lower k = k' \<and> v \<noteq> []) (rev header) of
        None \<Rightarrow> map_of hf k'
      | Some (k, v) \<Rightarrow> Some (rendered skips k' v))"
proof (induction header arbitrary: hf)
  case Nil
  then show ?case by simp
next
  case (Cons x header)
  obtain k0 v where x: "x = (k0, v)" by (cases x)
  show ?case
  proof (cases "v = []")
    case True
    then have "headerLogField_loop lower skips (x # header) hf = headerLogField_loop lower skips header hf"
      by (simp add: x)
    with True show ?thesis
      by (simp add: Cons.IH find_snoc x split: option.splits)
  next
    case False
    let ?k = "lower k0"
    define hf3 where "hf3 = skip_loop skips ?k
        (let hf1 = (if length v = 1 then AList.update ?k (v ! 0) hf
                    else AList.update ?k (''['' @ Join v ''], ['' @ '']'') hf)
         in if ?k = ''authorization'' \<or> ?k = ''cookie'' \<or> ?k = ''set-cookie''
            then AList.update ?k ''***'' hf1 else hf1)"
    have step: "headerLogField_loop lower skips (x # header) hf = headerLogField_loop lower skips header hf3"
      using False by (simp add: x Let_def hf3_def)
    have hf3: "map_of hf3 = (map_of hf)(?k \<mapsto> rendered skips ?k v)"
      using False unfolding hf3_def
      by (cases v) (auto simp: skip_loop_eq rendered_def masked_def update_conv' fun_eq_iff Let_def)
    show ?thesis
      unfolding step Cons.IH
      using False by (simp add: find_snoc x hf3 split: option.splits)
  qed
qed


lemma redact_lookup:
  "map_of (headerLogField lower skips header) k' =
     (case List.find (\<lambda>(k, v). lower k = k' \<and> v \<noteq> []) (rev header) of
        None \<Rightarrow> None
      | Some (k, v) \<Rightarrow> Some (rendered skips k' v))"
  by (simp add: headerLogField_def loop_lookup_acc split: option.splits)

lemma redact_masked:
  assumes "(k, v) \<in> set header" and "v \<noteq> []" and "masked skips (lower k)"
  shows "map_of (headerLogField lower skips header) (lower k) = Some ''***''"
proof -
  let ?P = "\<lambda>(k0, v0). lower k0 = lower k \<and> v0 \<noteq> ([]::string list)"
  from assms(1,2) have "\<exists>y. y \<in> set (rev header) \<and> ?P y" by auto
  then have "List.find ?P (rev header) \<noteq> None"
    by (simp only: find_None_iff) blast
  then obtain k2 v2 where "List.find ?P (rev header) = Some (k2, v2)" by auto
  with assms(3) show ?thesis
    by (simp add: redact_lookup rendered_def)
qed


text \<open>
  Claim C4. For every header collection and every redaction list, and whatever function
  \<open>strings.ToLower\<close> is, the redacted mapping holds, under a lower-cased name, what the
  last visited header with that lower-cased name and at least one value gives: the mask
  \<open>***\<close> when the lower-cased name is \<open>authorization\<close>, \<open>cookie\<close>, \<open>set-cookie\<close> or in
  the redaction list, else the single value as it is, else the values joined as
  \<open>[v1], [v2], ...\<close>. A name all of whose headers have no value is absent. In particular
  every header with a value whose name lower-cases to one of the three built-in names is
  stored as the mask, whatever the redaction list holds.
\<close>

theorem redact_table:
  "map_of (headerLogField lower skips header) k' =
     (case List.find (\<lambda>(k, v). lower k = k' \<and> v \<noteq> []) (rev header) of
        None \<Rightarrow> None
      | Some (k, v) \<Rightarrow>
          Some (if k' = ''authorization'' \<or> k' = ''cookie'' \<or> k' = ''set-cookie'' \<or> k' \<in> set skips
                then ''***''
                else if length v = 1 then hd v
                else ''['' @ Join v ''], ['' @ '']'')) \<and>
   (\<forall>(k, v) \<in> set header.
      v \<noteq> [] \<and>
      (lower k = ''authorization'' \<or> lower k = ''cookie'' \<or> lower k = ''set-cookie'' \<or>
       lower k \<in> set skips) \<longrightarrow>
      map_of (headerLogField lower skips header) (lower k) = Some ''***'')"
proof -
  have "\<forall>(k, v) \<in> set header.
      v \<noteq> [] \<and>
      (lower k = ''authorization'' \<or> lower k = ''cookie'' \<or> lower k = ''set-cookie'' \<or>
       lower k \<in> set skips) \<longrightarrow>
      map_of (headerLogField lower skips header) (lower k) = Some ''***''"
    using redact_masked [of _ _ header skips lower] by (auto simp: masked_def)
  then show ?thesis
    by (simp add: redact_lookup rendered_def masked_def split: option.splits)
qed

text \<open>A \<open>Set-Cookie\<close> header that the redaction list does not name, a name that it
  lists, a header with two values, one with none and one plain header; and a header whose
  name holds the Kelvin sign, which lower-cases to \<open>cookie\<close>.\<close>

theorem redact_table_witness:
  "map_of (headerLogField ascii_lower [''x-token'']
      [(''Set-Cookie'', [''abc=123'']), (''Accept'', [''a'', ''b'']), (''X-Empty'', []),
       (''X-Token'', [''t'']), (''Host'', [''h''])]) ''set-cookie'' = Some ''***'' \<and>
   map_of (headerLogField ascii_lower [''x-token'']
      [(''Set-Cookie'', [''abc=123'']), (''Accept'', [''a'', ''b'']), (''X-Empty'', []),
       (''X-Token'', [''t'']), (''Host'', [''h''])]) ''accept'' = Some ''[a], [b]'' \<and>
   map_of (headerLogField ascii_lower [''x-token'']
      [(''Set-Cookie'', [''abc=123'']), (''Accept'', [''a'', ''b'']), (''X-Empty'', []),
       (''X-Token'', [''t'']), (''Host'', [''h''])]) ''x-empty'' = None \<and>
   map_of (headerLogField ascii_lower [''x-token'']
      [(''Set-Cookie'', [''abc=123'']), (''Accept'', [''a'', ''b'']), (''X-Empty'', []),
       (''X-Token'', [''t'']), (''Host'', [''h''])]) ''x-token'' = Some ''***'' \<and>
   map_of (headerLogField ascii_lower [''x-token'']
      [(''Set-Cookie'', [''abc=123'']), (''Accept'', [''a'', ''b'']), (''X-Empty'', []),
       (''X-Token'', [''t'']), (''Host'', [''h''])]) ''host'' = Some ''h'' \<and>
   (kelvin_name, [''sid=secret'']) \<in> set [(kelvin_name, [''sid=secret''])] \<and>
   kelvin_lower kelvin_name = ''cookie'' \<and>
   map_of (headerLogField kelvin_lower [] [(kelvin_name, [''sid=secret''])]) ''cookie'' =
     Some ''***''"
proof -
  have k: "kelvin_lower kelvin_name = ''cookie''"
    by (simp add: kelvin_lower_def)
  have "map_of (headerLogField kelvin_lower [] [(kelvin_name, [''sid=secret''])])
      (kelvin_lower kelvin_name) = Some ''***''"
    using redact_table [of kelvin_lower "[]" "[(kelvin_name, [''sid=secret''])]" "''cookie''"]
    by (simp add: k)
  then have "map_of (headerLogField kelvin_lower [] [(kelvin_name, [''sid=secret''])]) ''cookie'' =
     Some ''***''"
    by (simp only: k)
  with k show ?thesis
    using redact_table [of ascii_lower "[''x-token'']" _ "''set-cookie''"]
      redact_table [of ascii_lower "[''x-token'']" _ "''accept''"]
      redact_table [of ascii_lower "[''x-token'']" _ "''x-empty''"]
      redact_table [of ascii_lower "[''x-token'']" _ "''x-token''"]
      redact_table [of ascii_lower "[''x-token'']" _ "''host''"]
    by (simp add: eval_simps)
qed



section \<open>Properties of the finalization\<close>

lemma logged_log: "logged (log l lv m s) = logged s @ [\<lparr>rec_level = lv, rec_msg = m, rec_attrs = attrs l\<rparr>]"
  by (simp add: log_def)

lemma statusLevel_not_Debug: "statusLevel status \<noteq> LevelDebug"
  by (simp add: statusLevel_def)

lemma logged_Write:
  "logged (Write a status n h e x s) =
     logged s @
     (if statusLevel status = LevelInfo then []
      else [\<lparr>rec_level = statusLevel status,
             rec_msg = response_msg (entries s a) status,
             rec_attrs = attrs (Logger (entries s a)) @
                         [(''httpResponse'', AFields (responseLog s status n h e x))]\<rparr>])"
  using statusLevel_not_Debug [of status]
  by (cases "statusLevel status") (simp_all add: Write_def Let_def logged_log With_def log_def responseLog_def)

lemma calls_Write: "calls (Write a status n h e x s) = calls s @ [CallWrite a]"
  by (cases "statusLevel status") (simp_all add: Write_def Let_def log_def)

text \<open>
  Claim C2. For every status code, \<open>Write\<close> leaves the records logged so far as they are
  and adds to them: nothing at all when the severity of the status is info, and otherwise
  only records of warn or error severity. No info-level end record is ever emitted.
\<close>

theorem Write_info_suppressed:
  "(statusLevel status = LevelInfo \<longrightarrow> logged (Write a status n h e x s) = logged s) \<and>
   take (length (logged s)) (logged (Write a status n h e x s)) = logged s \<and>
   (\<forall>rec \<in> set (drop (length (logged s)) (logged (Write a status n h e x s))).
      rec_level rec = LevelWarn \<or> rec_level rec = LevelError)"
  by (cases "statusLevel status") (simp_all add: logged_Write statusLevel_not_Debug)

text \<open>Status \<open>200\<close> is info and logs nothing; status \<open>404\<close> logs one warn record.\<close>

theorem Write_info_suppressed_witness:
  "statusLevel 200 = LevelInfo \<and>
   logged (Write 0 200 11 [] 5 (ExtraBytes '''') initial_world) = logged initial_world \<and>
   \<lparr>rec_level = LevelWarn, rec_msg = ''Response: 404 Client Error'',
     rec_attrs = [(''httpResponse'',
        AFields [(''status'', AInt 404), (''bytes'', AInt 9), (''elapsed'', AMillis 5),
                 (''body'', AString ''not found'')])]\<rparr>
     \<in> set (drop (length (logged initial_world))
          (logged (Write 0 404 9 [] 5 (ExtraBytes ''not found'') initial_world)))"
proof -
  have i: "statusLevel 200 = LevelInfo"
    by (simp add: statusLevel_def)
  have "logged (Write 0 200 11 [] 5 (ExtraBytes '''') initial_world) = logged initial_world"
    using Write_info_suppressed [of 200 0 11 "[]" 5 "ExtraBytes ''''" initial_world] i by blast
  moreover have "\<lparr>rec_level = LevelWarn, rec_msg = ''Response: 404 Client Error'',
     rec_attrs = [(''httpResponse'',
        AFields [(''status'', AInt 404), (''bytes'', AInt 9), (''elapsed'', AMillis 5),
                 (''body'', AString ''not found'')])]\<rparr>
     \<in> set (drop (length (logged initial_world))
          (logged (Write 0 404 9 [] 5 (ExtraBytes ''not found'') initial_world)))"
    by (simp add: logged_Write statusLevel_def statusLabel_def response_msg_def responseLog_def
        initial_world_def initial_options_def initial_logger_def eval_simps)
  ultimately show ?thesis using i by blast
qed

section \<open>Concise mode\<close>

lemma responseLog_concise:
  "Concise (DefaultOptions s) \<Longrightarrow>
   responseLog s status n h e x =
     [(''status'', AInt status), (''bytes'', AInt n), (''elapsed'', AMillis e)]"
  by (simp add: responseLog_def)

text \<open>
  Claim C7. When the concise option is set, creating the entry emits no start record, and
  for every finalization, whatever the status (also \<open>\<ge> 400\<close>), the response field set
  has neither a body nor a header: a record that \<open>Write\<close> emits carries exactly the fields
  status, bytes and elapsed under \<open>httpResponse\<close>.
\<close>

theorem concise_suppresses:
  assumes "Concise (DefaultOptions s)"
  shows "logged (snd (NewLogEntry l r s)) = logged s \<and>
    map_of (responseLog s status n h e x) ''body'' = None \<and>
    map_of (responseLog s status n h e x) ''header'' = None \<and>
    (\<forall>rec \<in> set (drop (length (logged s)) (logged (Write a status n h e x s))).
       rec_attrs rec = attrs (Logger (entries s a)) @
         [(''httpResponse'',
           AFields [(''status'', AInt status), (''bytes'', AInt n), (''elapsed'', AMillis e)])])"
proof -
  have "logged (snd (NewLogEntry l r s)) = logged s"
    using assms by (simp add: NewLogEntry_def Let_def)
  moreover have "map_of (responseLog s status n h e x) ''body'' = None"
    and "map_of (responseLog s status n h e x) ''header'' = None"
    using assms by (simp_all add: responseLog_concise)
  moreover have "\<forall>rec \<in> set (drop (length (logged s)) (logged (Write a status n h e x s))).
       rec_attrs rec = attrs (Logger (entries s a)) @
         [(''httpResponse'',
           AFields [(''status'', AInt status), (''bytes'', AInt n), (''elapsed'', AMillis e)])]"
    using assms by (simp add: logged_Write responseLog_concise)
  ultimately show ?thesis by blast
qed

text \<open>In concise mode a request that ends with status \<open>500\<close>, a body and a header.\<close>

theorem concise_suppresses_witness:
  "Concise (DefaultOptions concise_world) \<and>
   logged (snd (NewLogEntry initial_logger (get_request ''/err'') concise_world)) = [] \<and>
   map rec_attrs
     (logged (Write 0 500 8 [(''Content-Type'', [''text/plain''])] 7 (ExtraBytes ''err here'')
        concise_world)) =
     [ [(''httpResponse'',
        AFields [(''status'', AInt 500), (''bytes'', AInt 8), (''elapsed'', AMillis 7)])] ]"
proof -
  have c: "Concise (DefaultOptions concise_world)"
    by (simp add: concise_world_def)
  have l: "logged concise_world = []"
    by (simp add: concise_world_def initial_world_def)
  have e: "attrs (Logger (entries concise_world 0)) = []"
    by (simp add: concise_world_def initial_world_def initial_logger_def)
  have one: "length (logged (Write 0 500 8 [(''Content-Type'', [''text/plain''])] 7
      (ExtraBytes ''err here'') concise_world)) = 1"
    by (simp add: logged_Write l statusLevel_def)
  note t = concise_suppresses [OF c, of initial_logger "get_request ''/err''" 500 8
      "[(''Content-Type'', [''text/plain''])]" 7 "ExtraBytes ''err here''" 0]
  from t have "logged (snd (NewLogEntry initial_logger (get_request ''/err'') concise_world)) = []"
    by (simp add: l)
  moreover from t one have "map rec_attrs
     (logged (Write 0 500 8 [(''Content-Type'', [''text/plain''])] 7 (ExtraBytes ''err here'')
        concise_world)) =
     [ [(''httpResponse'',
        AFields [(''status'', AInt 500), (''bytes'', AInt 8), (''elapsed'', AMillis 7)])] ]"
    by (cases "logged (Write 0 500 8 [(''Content-Type'', [''text/plain''])] 7
          (ExtraBytes ''err here'') concise_world)") (simp_all add: l e)
  ultimately show ?thesis using c by blast
qed

text \<open>
  Claim C9. The entry lookup is total, so it never fails. It returns the logger of the
  active entry when the context holds one, and the process-wide default logger when the
  context holds nothing, a value that is not a request-logger entry, or a nil entry.
\<close>

theorem LogEntry_lookup:
  "(LogEntryCtxKey ctx = CtxEntry (Some a) \<longrightarrow> LogEntry ctx s = Logger (entries s a)) \<and>
   (LogEntryCtxKey ctx = CtxNone \<longrightarrow> LogEntry ctx s = slog_default s) \<and>
   (LogEntryCtxKey ctx = CtxOther \<longrightarrow> LogEntry ctx s = slog_default s) \<and>
   (LogEntryCtxKey ctx = CtxEntry None \<longrightarrow> LogEntry ctx s = slog_default s)"
  by (simp add: LogEntry_def)

text \<open>The context that \<open>Handler\<close> hands down, and three contexts without an entry.\<close>

theorem LogEntry_lookup_witness:
  "LogEntry (Ctx (WithLogEntry (get_request ''/info'') 0))
     (snd (NewLogEntry initial_logger (get_request ''/info'') initial_world)) =
   With initial_logger ''httpRequest''
     (AFields (requestLogFields initial_world (get_request ''/info'') True)) \<and>
   LogEntry (Ctx (get_request ''/info'')) initial_world = initial_logger \<and>
   LogEntry \<lparr>RequestIDKey = '''', LogEntryCtxKey = CtxOther\<rparr> initial_world = initial_logger \<and>
   LogEntry \<lparr>RequestIDKey = '''', LogEntryCtxKey = CtxEntry None\<rparr> initial_world = initial_logger"
  using LogEntry_lookup [of "Ctx (WithLogEntry (get_request ''/info'') 0)" 0
      "snd (NewLogEntry initial_logger (get_request ''/info'') initial_world)"]
    LogEntry_lookup [of "Ctx (get_request ''/info'')" 0 initial_world]
    LogEntry_lookup [of "\<lparr>RequestIDKey = '''', LogEntryCtxKey = CtxOther\<rparr>" 0 initial_world]
    LogEntry_lookup [of "\<lparr>RequestIDKey = '''', LogEntryCtxKey = CtxEntry None\<rparr>" 0 initial_world]
  by (simp add: WithLogEntry_def get_request_def NewLogEntry_def Let_def initial_world_def
      initial_options_def log_def)

section \<open>The panic hook\<close>

lemma Panic_entry:
  "entries (Panic a v stack s) a =
     \<lparr>Logger = With (With (Logger (entries s a)) ''stacktrace'' (AString stack))
                 ''panic'' (AString (sprintf_v v)),
      msg = sprintf_v v\<rparr>"
  by (simp add: Panic_def PrintPrettyStack_def Let_def)

lemma Panic_frame:
  "logged (Panic a v stack s) = logged s"
  "stderr (Panic a v stack s) = stderr s @ [PrettyStack v (debug_stack s)]"
  "calls (Panic a v stack s) = calls s @ [CallPanic a]"
  "DefaultOptions (Panic a v stack s) = DefaultOptions s"
  "arrays (Panic a v stack s) = arrays s"
  by (simp_all add: Panic_def PrintPrettyStack_def Let_def)

text \<open>
  Claim C8, as amended. When a handler panics with value \<open>v\<close>, the panic hook adds the
  fields \<open>stacktrace\<close> (the raw trace text) and \<open>panic\<close> (the formatted \<open>v\<close>) to the
  fields of the entry, sets the short message of the entry to the formatted \<open>v\<close>, dumps
  the stack to standard error and logs no record itself. A later \<open>Write\<close> on the entry,
  in any state where the entry is still as the hook left it, emits no record when the
  severity of the status is info; otherwise it emits one record, at that severity, with
  those fields, whose message is \<open>Response: <status> <label>\<close>, followed by
  \<open> - <formatted v>\<close> when the formatted \<open>v\<close> is not empty.
\<close>

theorem Panic_then_Write:
  assumes "entries s2 a = entries (Panic a v stack s) a"
  shows "attrs (Logger (entries (Panic a v stack s) a)) =
      attrs (Logger (entries s a)) @
        [(''stacktrace'', AString stack), (''panic'', AString (sprintf_v v))] \<and>
    msg (entries (Panic a v stack s) a) = sprintf_v v \<and>
    stderr (Panic a v stack s) = stderr s @ [PrettyStack v (debug_stack s)] \<and>
    logged (Panic a v stack s) = logged s \<and>
    logged (Write a status n h e x s2) =
      logged s2 @
      (if statusLevel status = LevelInfo then []
       else [\<lparr>rec_level = statusLevel status,
              rec_msg = ''Response: '' @ show_int status @ '' '' @ statusLabel status @
                        (if sprintf_v v = '''' then '''' else '' - '' @ sprintf_v v),
              rec_attrs = attrs (Logger (entries s a)) @
                [(''stacktrace'', AString stack), (''panic'', AString (sprintf_v v)),
                 (''httpResponse'', AFields (responseLog s2 status n h e x))]\<rparr>])"
  by (simp add: logged_Write assms Panic_entry Panic_frame With_def response_msg_def Let_def)

text \<open>The panic \<open>oh no\<close> followed by a finalization with status \<open>500\<close>.\<close>

theorem Panic_then_Write_witness:
  "map rec_msg
     (logged (Write 0 500 0 [] 3 (ExtraBytes '''')
        (Panic 0 (GoString ''oh no'') ''trace'' initial_world))) =
     [''Response: 500 Server Error - oh no''] \<and>
   map rec_attrs
     (logged (Write 0 500 0 [] 3 (ExtraBytes '''')
        (Panic 0 (GoString ''oh no'') ''trace'' initial_world))) =
     [ [(''stacktrace'', AString ''trace''), (''panic'', AString ''oh no''),
       (''httpResponse'',
        AFields [(''status'', AInt 500), (''bytes'', AInt 0), (''elapsed'', AMillis 3),
                 (''body'', AString '''')])] ] \<and>
   stderr (Panic 0 (GoString ''oh no'') ''trace'' initial_world) =
     [PrettyStack (GoString ''oh no'') ''goroutine 1 [running]'']"
proof -
  have "entries (Panic 0 (GoString ''oh no'') ''trace'' initial_world) 0 =
      entries (Panic 0 (GoString ''oh no'') ''trace'' initial_world) 0" ..
  from Panic_then_Write [OF this, of 500 0 "[]" 3 "ExtraBytes ''''"]
  show ?thesis
    by (simp add: Panic_frame statusLevel_def statusLabel_def responseLog_def eval_simps
        initial_world_def initial_options_def initial_logger_def)
qed

section \<open>Properties of the middleware\<close>

lemma skipPaths_Cons: "skipPaths (sp # others) = set sp"
  by (simp add: skipPaths_def)

lemma Handler_skip:
  "Path r \<in> skipPaths opt \<Longrightarrow> Handler logger opt next w r s = next w r s"
  by (auto simp: Handler_def)

lemma Handler_run:
  assumes "Path r \<notin> skipPaths opt"
  shows "Handler logger opt next w r s =
     (case Handler_enter logger w r s of
        (entry, ww, s3) \<Rightarrow>
          (case next ww (WithLogEntry r entry) s3 of
             (out, s4) \<Rightarrow> (out, Handler_deferred entry ww (clock s3) s4)))"
  using assms by (simp add: Handler_def Handler_enter_def Let_def split: prod.splits)

lemma Handler_enter_eq:
  "Handler_enter logger w r s =
     (next_entry s, Wrapped (next_wrapper s) w,
      Tee (Wrapped (next_wrapper s) w) (newLimitBuffer 512)
        (snd (NewWrapResponseWriter w (snd (NewLogEntry logger r s)))))"
  by (simp add: Handler_enter_def NewLogEntry_def NewWrapResponseWriter_def Let_def log_def)

lemma Handler_enter_frame:
  "calls (snd (snd (Handler_enter logger w r s))) = calls s"
  "next_entry (snd (snd (Handler_enter logger w r s))) = Suc (next_entry s)"
  by (simp_all add: Handler_enter_def NewLogEntry_def NewWrapResponseWriter_def Let_def log_def)

lemma ReadAll_frame:
  "calls (snd (ReadAll ww s)) = calls s"
  "logged (snd (ReadAll ww s)) = logged s"
  "entries (snd (ReadAll ww s)) = entries s"
  "next_entry (snd (ReadAll ww s)) = next_entry s"
  by (cases ww; simp split: option.splits)+

lemma Write_frame:
  "next_entry (Write a status n h e x s) = next_entry s"
  by (cases "statusLevel status") (simp_all add: Write_def Let_def log_def)

lemma Handler_deferred_frame:
  "calls (Handler_deferred entry ww t1 s) = calls s @ [CallWrite entry]"
  "next_entry (Handler_deferred entry ww t1 s) = next_entry s"
proof -
  obtain b s1 where r: "ReadAll ww s = (b, s1)" by (cases "ReadAll ww s")
  then have "calls s1 = calls s" "next_entry s1 = next_entry s"
    using ReadAll_frame(1) [of ww s] ReadAll_frame(4) [of ww s] by simp_all
  with r show "calls (Handler_deferred entry ww t1 s) = calls s @ [CallWrite entry]"
    "next_entry (Handler_deferred entry ww t1 s) = next_entry s"
    by (simp_all add: Handler_deferred_def calls_Write Write_frame)
qed

lemma Handler_deferred_logged:
  "\<exists>new. logged (Handler_deferred entry ww t1 s) = logged s @ new \<and> length new \<le> 1"
proof (cases "Status ww s \<ge> 400")
  case True
  obtain b s1 where r: "ReadAll ww s = (b, s1)" by (cases "ReadAll ww s")
  then have "logged s1 = logged s" using ReadAll_frame(2) [of ww s] by simp
  with True r show ?thesis
    by (simp add: Handler_deferred_def logged_Write)
next
  case False
  then show ?thesis
    by (simp add: Handler_deferred_def logged_Write)
qed

lemma WriteHeader_frame:
  "calls (WriteHeader w c s) = calls s"
  "logged (WriteHeader w c s) = logged s"
  by (induction w c s rule: WriteHeader.induct; simp)+

lemma Recoverer_Returned:
  "h w r s = (Returned, s4) \<Longrightarrow> Recoverer h w r s = (Returned, s4)"
  by (simp add: Recoverer_def)

lemma Recoverer_Abort:
  "h w r s = (Panicked ErrAbortHandler, s4) \<Longrightarrow>
   Recoverer h w r s = (Panicked ErrAbortHandler, s4)"
  by (simp add: Recoverer_def)

lemma Recoverer_Panicked:
  "h w r s = (Panicked v, s4) \<Longrightarrow> v \<noteq> ErrAbortHandler \<Longrightarrow>
   LogEntryCtxKey (Ctx r) = CtxEntry (Some entry) \<Longrightarrow>
   Recoverer h w r s =
     (Returned,
      if header_get (ReqHeader r) ''Connection'' \<noteq> ''Upgrade''
      then WriteHeader w 500 (Panic entry v (debug_stack s4) s4)
      else Panic entry v (debug_stack s4) s4)"
  by (simp add: Recoverer_def)

lemma Recoverer_calls:
  assumes "h w r s = (out, s4)" and "LogEntryCtxKey (Ctx r) = CtxEntry (Some entry)"
  shows "calls (snd (Recoverer h w r s)) =
      calls s4 @ (case out of Returned \<Rightarrow> []
                  | Panicked v \<Rightarrow> if v = ErrAbortHandler then [] else [CallPanic entry])"
proof (cases out)
  case Returned
  with assms show ?thesis by (simp add: Recoverer_Returned)
next
  case (Panicked v)
  show ?thesis
  proof (cases "v = ErrAbortHandler")
    case True
    with assms Panicked show ?thesis by (simp add: Recoverer_Abort)
  next
    case False
    from assms(1) have "h w r s = (Panicked v, s4)" by (simp add: Panicked)
    then have "Recoverer h w r s =
       (Returned,
        if header_get (ReqHeader r) ''Connection'' \<noteq> ''Upgrade''
        then WriteHeader w 500 (Panic entry v (debug_stack s4) s4)
        else Panic entry v (debug_stack s4) s4)"
      using False assms(2) by (rule Recoverer_Panicked)
    with False Panicked show ?thesis
      by (simp add: WriteHeader_frame Panic_frame)
  qed
qed

text \<open>
  Claim C6. Membership in the skip list is equality of strings with the path of the
  request. For a request whose path is in the list, \<open>Handler\<close> is the downstream handler
  itself, called with the same writer, the same request and the same state: no entry is
  made, nothing is wrapped, nothing is logged and the context gets no entry. A request is
  given a new entry exactly when its path is not in the list.
\<close>

theorem skip_bypass:
  "(Path r \<in> set sp \<longrightarrow> Handler logger (sp # others) next w r s = next w r s) \<and>
   (next_entry (snd (Handler logger (sp # others) idle_handler w r s)) = next_entry s
      \<longleftrightarrow> Path r \<in> set sp)"
proof (cases "Path r \<in> set sp")
  case True
  then show ?thesis
    by (simp add: Handler_skip skipPaths_Cons idle_handler_def)
next
  case False
  then have n: "Path r \<notin> skipPaths (sp # others)" by (simp add: skipPaths_Cons)
  obtain entry ww s3 where e: "Handler_enter logger w r s = (entry, ww, s3)"
    by (cases "Handler_enter logger w r s")
  then have "next_entry s3 = Suc (next_entry s)"
    using Handler_enter_frame(2) [of logger w r s] by simp
  then have "next_entry (snd (Handler logger (sp # others) idle_handler w r s))
      = Suc (next_entry s)"
    by (simp add: Handler_run [OF n] e Handler_deferred_frame idle_handler_def)
  with False show ?thesis by simp
qed

lemma Handler_calls:
  assumes "Path r \<notin> skipPaths opt"
    and "Handler_enter logger w r s = (entry, ww, s3)"
    and "h ww (WithLogEntry r entry) s3 = (out, s4)"
  shows "Handler logger opt h w r s = (out, Handler_deferred entry ww (clock s3) s4)"
    and "calls (snd (Handler logger opt h w r s)) = calls s4 @ [CallWrite entry]"
  using assms by (simp_all add: Handler_run Handler_deferred_frame)

lemma Handler_Recoverer_calls:
  assumes "Path r \<notin> skipPaths opt"
    and "Handler_enter logger w r s = (entry, ww, s3)"
    and "h ww (WithLogEntry r entry) s3 = (out, s4)"
  shows "calls (snd (Handler logger opt (Recoverer h) w r s)) =
      calls s4 @ (case out of Returned \<Rightarrow> []
                  | Panicked v \<Rightarrow> if v = ErrAbortHandler then [] else [CallPanic entry])
      @ [CallWrite entry]"
proof -
  obtain out' s4' where rr: "Recoverer h ww (WithLogEntry r entry) s3 = (out', s4')"
    by (cases "Recoverer h ww (WithLogEntry r entry) s3")
  have "LogEntryCtxKey (Ctx (WithLogEntry r entry)) = CtxEntry (Some entry)"
    by (simp add: WithLogEntry_def)
  from Recoverer_calls [where h=h, OF assms(3) this] rr
  have "calls s4' = calls s4 @ (case out of Returned \<Rightarrow> []
                  | Panicked v \<Rightarrow> if v = ErrAbortHandler then [] else [CallPanic entry])"
    by simp
  with Handler_calls(2) [where h="Recoverer h", OF assms(1,2) rr] show ?thesis by simp
qed

text \<open>
  Claim C1, as amended. For every request that is not skipped and every downstream
  handler, whether it returns or panics: \<open>Handler\<close> passes the outcome on, and calls the
  normal finalization \<open>Write\<close> on its entry exactly once, after the downstream handler
  has finished; it adds at most one record. Under the recovery middleware a panic (other
  than the abort sentinel) first runs the panic hook once and then, still, \<open>Write\<close>: on
  that path both are taken.
\<close>

theorem Handler_finalizes_once:
  assumes "Path r \<notin> skipPaths opt"
    and "Handler_enter logger w r s = (entry, ww, s3)"
    and "h ww (WithLogEntry r entry) s3 = (out, s4)"
  shows "calls s3 = calls s \<and>
    fst (Handler logger opt h w r s) = out \<and>
    calls (snd (Handler logger opt h w r s)) = calls s4 @ [CallWrite entry] \<and>
    calls (snd (Handler logger opt (Recoverer h) w r s)) =
      calls s4 @ (case out of Returned \<Rightarrow> []
                  | Panicked v \<Rightarrow> if v = ErrAbortHandler then [] else [CallPanic entry])
      @ [CallWrite entry] \<and>
    (\<exists>new. logged (snd (Handler logger opt h w r s)) = logged s4 @ new \<and> length new \<le> 1)"
proof -
  have "calls s3 = calls s"
    using Handler_enter_frame(1) [of logger w r s] assms(2) by simp
  moreover have "fst (Handler logger opt h w r s) = out"
    by (simp add: Handler_calls(1) [where h=h, OF assms])
  moreover note Handler_calls(2) [where h=h, OF assms] Handler_Recoverer_calls [where h=h, OF assms]
  moreover have "\<exists>new. logged (snd (Handler logger opt h w r s)) = logged s4 @ new \<and> length new \<le> 1"
    using Handler_deferred_logged [of entry ww "clock s3" s4]
    by (simp add: Handler_calls(1) [where h=h, OF assms])
  ultimately show ?thesis by blast
qed

lemma Handler_enter_initial:
  "Handler_enter initial_logger Conn r initial_world =
     (0, Wrapped 0 Conn, snd (snd (Handler_enter initial_logger Conn r initial_world)))"
  by (simp add: Handler_enter_eq initial_world_def)

lemma calls_enter_initial:
  "calls (snd (snd (Handler_enter initial_logger Conn r initial_world))) = []"
  by (simp add: Handler_enter_frame initial_world_def)

text \<open>The handler of \<open>/panic\<close>, alone and under the recovery middleware.\<close>

theorem Handler_finalizes_once_witness:
  "Path (get_request ''/panic'') \<notin> skipPaths [ [''/ping''] ] \<and>
   fst (Handler initial_logger [ [''/ping''] ] panic_handler Conn (get_request ''/panic'')
          initial_world) = Panicked (GoString ''oh no'') \<and>
   calls (snd (Handler initial_logger [ [''/ping''] ] panic_handler Conn (get_request ''/panic'')
          initial_world)) = [CallWrite 0] \<and>
   calls (snd (Handler initial_logger [ [''/ping''] ] (Recoverer panic_handler) Conn
          (get_request ''/panic'') initial_world)) = [CallPanic 0, CallWrite 0]"
proof -
  have p: "Path (get_request ''/panic'') \<notin> skipPaths [ [''/ping''] ]"
    by (simp add: get_request_def skipPaths_def)
  have h: "panic_handler (Wrapped 0 Conn) (WithLogEntry (get_request ''/panic'') 0)
      (snd (snd (Handler_enter initial_logger Conn (get_request ''/panic'') initial_world))) =
      (Panicked (GoString ''oh no''),
       snd (snd (Handler_enter initial_logger Conn (get_request ''/panic'') initial_world)))"
    by (simp add: panic_handler_def)
  from Handler_finalizes_once [where h=panic_handler, OF p Handler_enter_initial h] p show ?thesis
    by (simp add: calls_enter_initial)
qed

text \<open>
  The claim as first stated says that either \<open>Write\<close> or the panic hook is taken, never
  both. For the request \<open>/panic\<close> of the example program, through the chain that
  \<open>RequestLogger\<close> builds, both are called on the one entry.
\<close>

theorem finalization_counterexample:
  "calls (snd (RequestLogger id initial_logger [ [''/ping''] ] panic_handler Conn
          (get_request ''/panic'') initial_world)) = [CallPanic 0, CallWrite 0]"
proof -
  have p: "Path (get_request ''/panic'') \<notin> skipPaths [ [''/ping''] ]"
    by (simp add: get_request_def skipPaths_def)
  have h: "panic_handler (Wrapped 0 Conn) (WithLogEntry (get_request ''/panic'') 0)
      (snd (snd (Handler_enter initial_logger Conn (get_request ''/panic'') initial_world))) =
      (Panicked (GoString ''oh no''),
       snd (snd (Handler_enter initial_logger Conn (get_request ''/panic'') initial_world)))"
    by (simp add: panic_handler_def)
  from Handler_Recoverer_calls [where h=panic_handler, OF p Handler_enter_initial h] show ?thesis
    by (simp add: calls_enter_initial RequestLogger_def)
qed

lemma enter_initial_state:
  "wrappers (snd (snd (Handler_enter initial_logger Conn r initial_world))) 0 =
     \<lparr>code = 0, wroteHeader = False, bytes = 0, tee = Some (512, '''')\<rparr>"
  "resp_status (snd (snd (Handler_enter initial_logger Conn r initial_world))) = 0"
  "map rec_msg (logged (snd (snd (Handler_enter initial_logger Conn r initial_world)))) =
     [''Request: '' @ Method r @ '' '' @ Path r]"
  by (simp_all add: Handler_enter_eq NewWrapResponseWriter_def NewLogEntry_def Let_def
      newLimitBuffer_def log_def initial_world_def initial_options_def)

lemma WriteBody_fresh:
  assumes "wrappers s a = \<lparr>code = 0, wroteHeader = False, bytes = 0, tee = Some (512, '''')\<rparr>"
    and "resp_status s = 0"
  shows "code (wrappers (WriteBody (Wrapped a Conn) p s) a) = 200"
    and "wroteHeader (wrappers (WriteBody (Wrapped a Conn) p s) a)"
    and "logged (WriteBody (Wrapped a Conn) p s) = logged s"
    and "calls (WriteBody (Wrapped a Conn) p s) = calls s"
  using assms by (simp_all add: Let_def)

lemma Panic_wrappers: "wrappers (Panic a v stack s) = wrappers s"
  by (simp add: Panic_def PrintPrettyStack_def Let_def)

lemma WriteHeader_written:
  "wroteHeader (wrappers s a) \<Longrightarrow> WriteHeader (Wrapped a inner) c s = s"
  by simp

lemma Handler_deferred_info:
  "statusLevel (Status ww s) = LevelInfo \<Longrightarrow> logged (Handler_deferred entry ww t1 s) = logged s"
proof -
  assume i: "statusLevel (Status ww s) = LevelInfo"
  then have "\<not> Status ww s \<ge> 400"
    by (auto simp: statusLevel_def split: if_splits)
  with i show ?thesis
    by (simp add: Handler_deferred_def logged_Write)
qed

lemma late_chain:
  "map rec_msg (logged (snd (RequestLogger id initial_logger [] late_panic_handler Conn
      (get_request ''/late'') initial_world))) = [''Request: GET /late'']"
proof -
  let ?r = "get_request ''/late''"
  let ?s3 = "snd (snd (Handler_enter initial_logger Conn ?r initial_world))"
  let ?s4 = "WriteBody (Wrapped 0 Conn) ''hello'' ?s3"
  let ?s5 = "Panic 0 (GoString ''oh no'') (debug_stack ?s4) ?s4"
  have p: "Path ?r \<notin> skipPaths []"
    by (simp add: skipPaths_def)
  have h: "late_panic_handler (Wrapped 0 Conn) (WithLogEntry ?r 0) ?s3 =
      (Panicked (GoString ''oh no''), ?s4)"
    by (simp add: late_panic_handler_def)
  have w4: "code (wrappers ?s4 0) = 200" "wroteHeader (wrappers ?s4 0)"
    "logged ?s4 = logged ?s3"
    by (rule WriteBody_fresh [OF enter_initial_state(1,2)])+
  have c: "LogEntryCtxKey (Ctx (WithLogEntry ?r 0)) = CtxEntry (Some 0)"
    by (simp add: WithLogEntry_def)
  have "Recoverer late_panic_handler (Wrapped 0 Conn) (WithLogEntry ?r 0) ?s3 =
      (Returned,
        if header_get (ReqHeader (WithLogEntry ?r 0)) ''Connection'' \<noteq> ''Upgrade''
        then WriteHeader (Wrapped 0 Conn) 500 ?s5 else ?s5)"
    using h _ c by (rule Recoverer_Panicked) simp
  then have rec: "Recoverer late_panic_handler (Wrapped 0 Conn) (WithLogEntry ?r 0) ?s3 =
      (Returned, ?s5)"
    using w4(2) by (simp add: Panic_wrappers)
  have i: "statusLevel (Status (Wrapped 0 Conn) ?s5) = LevelInfo"
    using w4(1) by (simp only: Status.simps Panic_wrappers) (simp add: statusLevel_def)
  have "logged (Handler_deferred 0 (Wrapped 0 Conn) (clock ?s3) ?s5) = logged ?s5"
    using i by (rule Handler_deferred_info)
  also have "\<dots> = logged ?s4"
    by (rule Panic_frame(1))
  also have "\<dots> = logged ?s3"
    by (rule w4(3))
  finally have d: "logged (Handler_deferred 0 (Wrapped 0 Conn) (clock ?s3) ?s5) = logged ?s3" .
  have "Handler initial_logger [] (Recoverer late_panic_handler) Conn ?r initial_world =
      (Returned, Handler_deferred 0 (Wrapped 0 Conn) (clock ?s3) ?s5)"
    using Handler_calls(1) [where h="Recoverer late_panic_handler", OF p Handler_enter_initial rec] .
  then have "logged (snd (RequestLogger id initial_logger [] late_panic_handler Conn ?r
      initial_world)) = logged ?s3"
    by (simp only: RequestLogger_def id_apply snd_conv d)
  then show ?thesis
    by (simp only: enter_initial_state(3)) (simp add: get_request_def)
qed

text \<open>
  The claim C8 as first stated fails in two ways. After a panic with the empty string the
  message of the end record has no \<open> - \<close> suffix. And after a panic with \<open>oh no\<close> a
  finalization with status \<open>200\<close> emits no record at all; the chain of \<open>RequestLogger\<close>
  reaches that state when the handler has written a body before it panics, and then the
  start record is the only record of the request.
\<close>

theorem Panic_then_Write_counterexample:
  "map rec_msg
     (logged (Write 0 500 0 [] 3 (ExtraBytes '''')
        (Panic 0 (GoString '''') ''trace'' initial_world))) =
     [''Response: 500 Server Error''] \<and>
   map rec_msg
     (logged (Write 0 500 0 [] 3 (ExtraBytes '''')
        (Panic 0 (GoString '''') ''trace'' initial_world))) \<noteq>
     [''Response: 500 Server Error - '' @ sprintf_v (GoString '''')] \<and>
   logged (Write 0 200 5 [] 3 (ExtraBytes '''')
        (Panic 0 (GoString ''oh no'') ''trace'' initial_world)) = [] \<and>
   map rec_msg (logged (snd (RequestLogger id initial_logger [] late_panic_handler Conn
      (get_request ''/late'') initial_world))) = [''Request: GET /late'']"
proof -
  have "map rec_msg
     (logged (Write 0 500 0 [] 3 (ExtraBytes '''')
        (Panic 0 (GoString '''') ''trace'' initial_world))) =
     [''Response: 500 Server Error'']"
    by (simp add: logged_Write Panic_entry Panic_frame statusLevel_def statusLabel_def
        response_msg_def eval_simps initial_world_def)
  moreover have "logged (Write 0 200 5 [] 3 (ExtraBytes '''')
        (Panic 0 (GoString ''oh no'') ''trace'' initial_world)) = []"
    by (simp add: logged_Write Panic_frame statusLevel_def initial_world_def)
  ultimately show ?thesis
    using late_chain by simp
qed

text \<open>The path \<open>/ping\<close> is skipped; the path \<open>/ping/\<close> is another string and is not.\<close>

theorem skip_bypass_witness:
  "Path (get_request ''/ping'') \<in> set [''/ping''] \<and>
   Handler initial_logger [ [''/ping''] ] warn_handler Conn (get_request ''/ping'') initial_world =
     warn_handler Conn (get_request ''/ping'') initial_world \<and>
   logged (snd (Handler initial_logger [ [''/ping''] ] idle_handler Conn
     (get_request ''/ping'') initial_world)) = [] \<and>
   next_entry (snd (Handler initial_logger [ [''/ping''] ] idle_handler Conn
     (get_request ''/ping/'') initial_world)) \<noteq> next_entry initial_world"
proof -
  have p: "Path (get_request ''/ping'') \<in> set [''/ping'']"
    by (simp add: get_request_def)
  have q: "Path (get_request ''/ping/'') \<notin> set [''/ping'']"
    by (simp add: get_request_def)
  from skip_bypass [of "get_request ''/ping''" "[''/ping'']" initial_logger "[]" warn_handler Conn initial_world] p
  have "Handler initial_logger [ [''/ping''] ] warn_handler Conn (get_request ''/ping'') initial_world =
     warn_handler Conn (get_request ''/ping'') initial_world"
    by blast
  moreover
  from skip_bypass [of "get_request ''/ping''" "[''/ping'']" initial_logger "[]"
      idle_handler Conn initial_world] p
  have "logged (snd (Handler initial_logger [ [''/ping''] ] idle_handler Conn
     (get_request ''/ping'') initial_world)) = []"
    by (simp add: initial_world_def idle_handler_def)
  moreover
  from skip_bypass [of "get_request ''/ping/''" "[''/ping'']" initial_logger "[]" _ Conn initial_world] q
  have "next_entry (snd (Handler initial_logger [ [''/ping''] ] idle_handler Conn
     (get_request ''/ping/'') initial_world)) \<noteq> next_entry initial_world"
    by blast
  ultimately show ?thesis using p by blast
qed

section \<open>Properties of Configure\<close>

lemma lower_loop_cells:
  "distinct js \<Longrightarrow>
   lower_loop lower sl js arrs b j =
     (if b = base sl \<and> j \<in> (\<lambda>i. start sl + i) ` set js then lower (arrs b j) else arrs b j)"
proof (induction js arbitrary: arrs)
  case Nil
  then show ?case by simp
next
  case (Cons i js)
  then have d: "distinct js" and ni: "i \<notin> set js" by simp_all
  have "start sl + i \<notin> (\<lambda>i. start sl + i) ` set js"
    using ni by auto
  then show ?case
    by (auto simp: Cons.IH [OF d] Let_def)
qed

lemma lower_loop_slice:
  "lower_loop lower sl [0 ..< len sl] arrs b j =
     (if b = base sl \<and> start sl \<le> j \<and> j < start sl + len sl then lower (arrs b j)
      else arrs b j)"
proof -
  have "(\<lambda>i. start sl + i) ` set [0 ..< len sl] = {j. start sl \<le> j \<and> j < start sl + len sl}"
  proof (rule set_eqI)
    fix j
    show "j \<in> (\<lambda>i. start sl + i) ` set [0 ..< len sl] \<longleftrightarrow>
        j \<in> {j. start sl \<le> j \<and> j < start sl + len sl}"
    proof
      assume "j \<in> (\<lambda>i. start sl + i) ` set [0 ..< len sl]"
      then show "j \<in> {j. start sl \<le> j \<and> j < start sl + len sl}" by auto
    next
      assume "j \<in> {j. start sl \<le> j \<and> j < start sl + len sl}"
      then have "j - start sl \<in> set [0 ..< len sl]" and "j = start sl + (j - start sl)"
        by auto
      then show "j \<in> (\<lambda>i. start sl + i) ` set [0 ..< len sl]" by (rule rev_image_eqI)
    qed
  qed
  then show ?thesis
    by (simp add: lower_loop_cells)
qed

lemma Configure_fields:
  "SkipHeaders (DefaultOptions (Configure opts s)) = SkipHeaders opts"
  "Concise (DefaultOptions (Configure opts s)) = Concise opts"
  "Tags (DefaultOptions (Configure opts s)) = Tags opts"
  "DefaultOptions (Configure opts s) =
     opts\<lparr>LogLevel := (if LogLevel opts = '''' then ''info'' else LogLevel opts),
          LevelFieldName := (if LevelFieldName opts = '''' then ''level'' else LevelFieldName opts),
          TimeFieldFormat := (if TimeFieldFormat opts = '''' then RFC3339Nano
                              else TimeFieldFormat opts),
          TimeFieldName := (if TimeFieldName opts = '''' then ''timestamp''
                            else TimeFieldName opts)\<rparr>"
  by (simp_all add: Configure_def Let_def)

lemma Configure_arrays:
  "arrays (Configure opts s) =
     lower_loop (strings_ToLower s) (SkipHeaders opts) [0 ..< len (SkipHeaders opts)] (arrays s)"
  by (simp add: Configure_def Let_def)

text \<open>
  Claim C10. \<open>Configure\<close> rewrites the backing array of the slice it is given: every cell
  of the slice holds afterwards what \<open>strings.ToLower\<close> (whatever function it is) gives
  for its old content, and no other cell of any array changes, so the caller sees the
  change through its own slice. The \<open>SkipHeaders\<close> of the
  new \<open>DefaultOptions\<close> is that same slice (same array, same bounds), so the two alias.
  \<open>Concise\<close> and \<open>Tags\<close> are stored unchanged, and the four strings are stored with their
  defaults filled in.
\<close>

theorem Configure_in_place:
  "(\<forall>i < len (SkipHeaders opts).
      arrays (Configure opts s) (base (SkipHeaders opts)) (start (SkipHeaders opts) + i) =
      strings_ToLower s (arrays s (base (SkipHeaders opts)) (start (SkipHeaders opts) + i))) \<and>
   (\<forall>b j. \<not> (b = base (SkipHeaders opts) \<and> start (SkipHeaders opts) \<le> j \<and>
              j < start (SkipHeaders opts) + len (SkipHeaders opts)) \<longrightarrow>
      arrays (Configure opts s) b j = arrays s b j) \<and>
   SkipHeaders (DefaultOptions (Configure opts s)) = SkipHeaders opts \<and>
   slice_elems (Configure opts s) (SkipHeaders (DefaultOptions (Configure opts s))) =
     map (strings_ToLower s) (slice_elems s (SkipHeaders opts)) \<and>
   DefaultOptions (Configure opts s) =
     opts\<lparr>LogLevel := (if LogLevel opts = '''' then ''info'' else LogLevel opts),
          LevelFieldName := (if LevelFieldName opts = '''' then ''level'' else LevelFieldName opts),
          TimeFieldFormat := (if TimeFieldFormat opts = '''' then RFC3339Nano
                              else TimeFieldFormat opts),
          TimeFieldName := (if TimeFieldName opts = '''' then ''timestamp''
                            else TimeFieldName opts)\<rparr> \<and>
   Concise (DefaultOptions (Configure opts s)) = Concise opts \<and>
   Tags (DefaultOptions (Configure opts s)) = Tags opts"
proof -
  have "\<forall>i < len (SkipHeaders opts).
      arrays (Configure opts s) (base (SkipHeaders opts)) (start (SkipHeaders opts) + i) =
      strings_ToLower s (arrays s (base (SkipHeaders opts)) (start (SkipHeaders opts) + i))"
    by (simp add: Configure_arrays lower_loop_slice)
  moreover have "\<forall>b j. \<not> (b = base (SkipHeaders opts) \<and> start (SkipHeaders opts) \<le> j \<and>
              j < start (SkipHeaders opts) + len (SkipHeaders opts)) \<longrightarrow>
      arrays (Configure opts s) b j = arrays s b j"
    by (simp add: Configure_arrays lower_loop_slice)
  moreover have "slice_elems (Configure opts s) (SkipHeaders (DefaultOptions (Configure opts s))) =
     map (strings_ToLower s) (slice_elems s (SkipHeaders opts))"
    by (simp add: slice_elems_def Configure_fields(1) Configure_arrays lower_loop_slice)
  ultimately show ?thesis
    using Configure_fields [of opts s] by blast
qed

text \<open>A slice over the two middle cells of a four-cell array, with ASCII names and
  with a name that holds the Kelvin sign.\<close>

theorem Configure_in_place_witness:
  "map (arrays (Configure caller_options caller_world) 7) [0, 1, 2, 3] =
     [''Zero'', ''x-api-key'', ''x-token'', ''Three''] \<and>
   SkipHeaders (DefaultOptions (Configure caller_options caller_world)) =
     \<lparr>base = 7, start = 1, len = 2\<rparr> \<and>
   slice_elems (Configure caller_options caller_world)
     (SkipHeaders (DefaultOptions (Configure caller_options caller_world))) =
     [''x-api-key'', ''x-token''] \<and>
   Concise (DefaultOptions (Configure caller_options caller_world)) \<and>
   Tags (DefaultOptions (Configure caller_options caller_world)) = [(''env'', ''dev'')] \<and>
   LogLevel (DefaultOptions (Configure caller_options caller_world)) = ''WARN'' \<and>
   LevelFieldName (DefaultOptions (Configure caller_options caller_world)) = ''level'' \<and>
   map (arrays (Configure caller_options kelvin_world) 7) [0, 1, 2, 3] =
     [''Zero'', ''cookie'', ''x-token'', ''Three'']"
proof -
  note t = Configure_in_place [of caller_options caller_world]
  have sl: "SkipHeaders caller_options = \<lparr>base = 7, start = 1, len = 2\<rparr>"
    by (simp add: caller_options_def)
  have c: "arrays caller_world 7 j =
      (if j < 4 then [''Zero'', ''X-Api-Key'', ''X-Token'', ''Three''] ! j else '''')" for j
    by (simp add: caller_world_def)
  have lw: "strings_ToLower caller_world = ascii_lower"
    by (simp add: caller_world_def initial_world_def)
  from t have inside: "\<forall>i<2. arrays (Configure caller_options caller_world) 7 (1 + i) =
      ascii_lower (arrays caller_world 7 (1 + i))"
    by (simp add: sl lw)
  from t have outside: "\<forall>j. \<not> (1 \<le> j \<and> j < 3) \<longrightarrow>
      arrays (Configure caller_options caller_world) 7 j = arrays caller_world 7 j"
    by (auto simp: sl)
  note t2 = Configure_in_place [of caller_options kelvin_world]
  have c2: "arrays kelvin_world 7 j =
      (if j < 4 then [''Zero'', kelvin_name, ''X-Token'', ''Three''] ! j else '''')" for j
    by (simp add: kelvin_world_def)
  have lw2: "strings_ToLower kelvin_world = kelvin_lower"
    by (simp add: kelvin_world_def)
  from t2 have inside2: "\<forall>i<2. arrays (Configure caller_options kelvin_world) 7 (1 + i) =
      kelvin_lower (arrays kelvin_world 7 (1 + i))"
    by (simp add: sl lw2)
  from t2 have outside2: "\<forall>j. \<not> (1 \<le> j \<and> j < 3) \<longrightarrow>
      arrays (Configure caller_options kelvin_world) 7 j = arrays kelvin_world 7 j"
    by (auto simp: sl)
  have k1: "arrays (Configure caller_options kelvin_world) 7 1 = ''cookie''"
    using inside2 [rule_format, of 0] by (simp add: c2 kelvin_lower_def)
  have k2: "arrays (Configure caller_options kelvin_world) 7 2 = ''x-token''"
    using inside2 [rule_format, of 1]
    by (simp add: c2 numeral_2_eq_2 kelvin_lower_def kelvin_name_def eval_simps)
  have k0: "arrays (Configure caller_options kelvin_world) 7 0 = ''Zero''"
    using outside2 [rule_format, of 0] by (simp add: c2)
  have k3: "arrays (Configure caller_options kelvin_world) 7 3 = ''Three''"
    using outside2 [rule_format, of 3] by (simp add: c2)
  have "arrays (Configure caller_options caller_world) 7 1 = ascii_lower ''X-Api-Key''"
    using inside [rule_format, of 0] by (simp add: c)
  moreover have "arrays (Configure caller_options caller_world) 7 2 = ascii_lower ''X-Token''"
    using inside [rule_format, of 1] by (simp add: c numeral_2_eq_2)
  moreover have "arrays (Configure caller_options caller_world) 7 0 = ''Zero''"
    using outside [rule_format, of 0] by (simp add: c)
  moreover have "arrays (Configure caller_options caller_world) 7 3 = ''Three''"
    using outside [rule_format, of 3] by (simp add: c)
  moreover from t have "slice_elems (Configure caller_options caller_world)
     (SkipHeaders (DefaultOptions (Configure caller_options caller_world))) =
     map ascii_lower (slice_elems caller_world \<lparr>base = 7, start = 1, len = 2\<rparr>)"
    by (auto simp: sl lw)
  moreover have "slice_elems caller_world \<lparr>base = 7, start = 1, len = 2\<rparr> =
      [''X-Api-Key'', ''X-Token'']"
    by (simp add: slice_elems_def c upt_rec)
  moreover from t have "DefaultOptions (Configure caller_options caller_world) =
      caller_options\<lparr>LogLevel := ''WARN'', LevelFieldName := ''level'',
        TimeFieldFormat := RFC3339Nano, TimeFieldName := ''ts''\<rparr>"
    by (simp add: caller_options_def)
  moreover have "map (arrays (Configure caller_options kelvin_world) 7) [0, 1, 2, 3] =
     [''Zero'', ''cookie'', ''x-token'', ''Three'']"
    using k0 k1 k2 k3 by simp
  ultimately show ?thesis
    by (simp add: sl eval_simps caller_options_def)
qed

end
